theory Spec2Isabelle
  imports Main "HOL-Library.Word"
begin

unbundle bit_operations_syntax

section \<open>Platform primitives used by the streaming code\<close>

text \<open>
  The hooks under verification are \<open>useClaimProcessor\<close> (reset, processStream,
  processClaim, processFile) and the \<open>handleSend\<close> handler of \<open>ClaimChatBox\<close>.
  They call a handful of browser primitives: \<open>TextDecoder.decode\<close> in streaming mode,
  \<open>String.prototype.split\<close>, \<open>String.prototype.trim\<close>, \<open>Response.ok\<close>,
  \<open>Response.text\<close>, \<open>JSON.parse\<close> and \<open>fetch\<close>. The first five are written out
  below after the standards that define them (Encoding, ECMAScript, Fetch);
  \<open>JSON.parse\<close> and \<open>fetch\<close> are parameters of the functions that call them.
\<close>

subsection \<open>Bytes and JavaScript strings\<close>

type_synonym byte = "8 word"

text \<open>A JavaScript string is a sequence of UTF-16 code units.\<close>

type_synonym jsstring = "16 word list"

definition js :: "string \<Rightarrow> jsstring" where
  "js s = map (\<lambda>c. of_nat (of_char c)) s"

definition NL :: "16 word" where
  "NL = 0x0A"

text \<open>The bytes of an ASCII text, as a server would send it.\<close>

definition ascii :: "string \<Rightarrow> byte list" where
  "ascii s = map (\<lambda>c. of_nat (of_char c)) s"

subsection \<open>TextDecoder: the UTF-8 decoder of the Encoding Standard\<close>

record utf8_state =
  code_point :: "32 word"
  bytes_seen :: nat
  bytes_needed :: nat
  lower_boundary :: byte
  upper_boundary :: byte

definition utf8_init :: utf8_state where
  "utf8_init = \<lparr>code_point = 0, bytes_seen = 0, bytes_needed = 0,
                 lower_boundary = 0x80, upper_boundary = 0xBF\<rparr>"

text \<open>
  Reading one byte while no sequence is pending (bytes needed is 0). The result is the
  scalar values emitted and the next decoder state; an error emits U+FFFD.
\<close>

definition utf8_lead :: "byte \<Rightarrow> 32 word list \<times> utf8_state" where
  "utf8_lead b =
     (if b \<le> 0x7F then ([ucast b], utf8_init)
      else if 0xC2 \<le> b \<and> b \<le> 0xDF then
        ([], utf8_init\<lparr>bytes_needed := 1, code_point := ucast (b AND 0x1F)\<rparr>)
      else if 0xE0 \<le> b \<and> b \<le> 0xEF then
        ([], utf8_init\<lparr>lower_boundary := (if b = 0xE0 then 0xA0 else 0x80),
                       upper_boundary := (if b = 0xED then 0x9F else 0xBF),
                       bytes_needed := 2, code_point := ucast (b AND 0xF)\<rparr>)
      else if 0xF0 \<le> b \<and> b \<le> 0xF4 then
        ([], utf8_init\<lparr>lower_boundary := (if b = 0xF0 then 0x90 else 0x80),
                       upper_boundary := (if b = 0xF4 then 0x8F else 0xBF),
                       bytes_needed := 3, code_point := ucast (b AND 0x7)\<rparr>)
      else ([0xFFFD], utf8_init))"

text \<open>
  The handler for one byte. A byte outside the expected continuation range is an error;
  the decoder resets, and the byte is put back and read again from the reset state.
\<close>

definition utf8_step :: "utf8_state \<Rightarrow> byte \<Rightarrow> 32 word list \<times> utf8_state" where
  "utf8_step s b =
     (if bytes_needed s = 0 then utf8_lead b
      else if b < lower_boundary s \<or> upper_boundary s < b then
        (case utf8_lead b of (out, s') \<Rightarrow> (0xFFFD # out, s'))
      else
        (let cp = push_bit 6 (code_point s) OR ucast (b AND 0x3F);
             seen = bytes_seen s + 1
         in if seen \<noteq> bytes_needed s
            then ([], s\<lparr>code_point := cp, bytes_seen := seen,
                        lower_boundary := 0x80, upper_boundary := 0xBF\<rparr>)
            else ([cp], utf8_init)))"

fun utf8_run :: "utf8_state \<Rightarrow> byte list \<Rightarrow> 32 word list \<times> utf8_state" where
  "utf8_run s [] = ([], s)"
| "utf8_run s (b # bs) =
     (case utf8_step s b of (out, s') \<Rightarrow>
        (case utf8_run s' bs of (outs, s'') \<Rightarrow> (out @ outs, s'')))"

text \<open>A scalar value as UTF-16 code units: a surrogate pair above the basic plane.\<close>

definition utf16 :: "32 word \<Rightarrow> jsstring" where
  "utf16 cp =
     (if cp < 0x10000 then [ucast cp]
      else [0xD800 + ucast (drop_bit 10 (cp - 0x10000)),
            0xDC00 + ucast ((cp - 0x10000) AND 0x3FF)])"

text \<open>
  A \<open>TextDecoder\<close> (UTF-8, replacement error mode, \<open>ignoreBOM\<close> false) that is only
  ever called with \<open>{stream: true}\<close>: the UTF-8 state and the BOM-seen flag persist
  from one call to the next, and the pending bytes of an incomplete sequence are kept
  rather than flushed.
\<close>

record text_decoder =
  utf8 :: utf8_state
  bom_seen :: bool

definition new_TextDecoder :: text_decoder where
  "new_TextDecoder = \<lparr>utf8 = utf8_init, bom_seen = False\<rparr>"

text \<open>Serialising the decoded scalars drops one leading U+FEFF, once per decoder.\<close>

definition serialize :: "bool \<Rightarrow> 32 word list \<Rightarrow> 32 word list \<times> bool" where
  "serialize seen items =
     (case items of
        [] \<Rightarrow> ([], seen)
      | x # xs \<Rightarrow> if seen then (items, True)
                  else if x = 0xFEFF then (xs, True) else (items, True))"

definition decode :: "text_decoder \<Rightarrow> byte list \<Rightarrow> jsstring \<times> text_decoder" where
  "decode d v =
     (case utf8_run (utf8 d) v of (items, u) \<Rightarrow>
        (case serialize (bom_seen d) items of (kept, seen) \<Rightarrow>
           (concat (map utf16 kept), \<lparr>utf8 = u, bom_seen = seen\<rparr>)))"

text \<open>
  The one-shot ``UTF-8 decode'' that \<open>Response.text\<close> applies to a fully read body: a
  leading byte order mark is skipped and a sequence still pending at the end is an error.
\<close>

definition utf8_decode :: "byte list \<Rightarrow> jsstring" where
  "utf8_decode bs =
     (let bs' = (if take 3 bs = [0xEF, 0xBB, 0xBF] then drop 3 bs else bs)
      in case utf8_run utf8_init bs' of (items, u) \<Rightarrow>
           concat (map utf16 (items @ (if bytes_needed u \<noteq> 0 then [0xFFFD] else []))))"

subsection \<open>String.prototype.split on a newline, and trim\<close>

text \<open>
  \<open>s.split("\n")\<close>: the substrings between the separators, in order; never an empty
  array (the empty string gives one empty substring). The last alternative of the
  \<open>case\<close> is unreachable and only there for totality.
\<close>

fun split_nl :: "jsstring \<Rightarrow> jsstring list" where
  "split_nl [] = [[]]"
| "split_nl (c # cs) =
     (if c = NL then [] # split_nl cs
      else (case split_nl cs of l # ls \<Rightarrow> (c # l) # ls | [] \<Rightarrow> [[c]]))"

text \<open>ECMAScript's WhiteSpace and LineTerminator code points, which \<open>trim\<close> strips.\<close>

definition is_js_space :: "16 word \<Rightarrow> bool" where
  "is_js_space c =
     (c = 0x09 \<or> c = 0x0A \<or> c = 0x0B \<or> c = 0x0C \<or> c = 0x0D \<or> c = 0x20 \<or>
      c = 0xA0 \<or> c = 0x1680 \<or> (0x2000 \<le> c \<and> c \<le> 0x200A) \<or> c = 0x2028 \<or>
      c = 0x2029 \<or> c = 0x202F \<or> c = 0x205F \<or> c = 0x3000 \<or> c = 0xFEFF)"

definition trim :: "jsstring \<Rightarrow> jsstring" where
  "trim s = rev (dropWhile is_js_space (rev (dropWhile is_js_space s)))"

text \<open>\<open>Array.prototype.pop\<close>: the last element (undefined on an empty array) and the rest.\<close>

definition pop :: "'a list \<Rightarrow> 'a option \<times> 'a list" where
  "pop xs = (if xs = [] then (None, []) else (Some (last xs), butlast xs))"

section \<open>useClaimProcessor\<close>

subsection \<open>State\<close>

record 'd StreamResult =
  node :: jsstring
  data :: 'd

datatype toast = ToastSuccess jsstring | ToastError jsstring

text \<open>A thrown value: an \<open>Error\<close> instance with its message, or anything else.\<close>

datatype thrown = Error jsstring | NonError

text \<open>
  One result of \<open>reader.read()\<close>: a chunk of bytes, or a rejection. The body of a
  response is the list of results its reader delivers; when the list is exhausted the
  reader reports \<open>done\<close>. A body is therefore finite: a stream that never ends, on
  which the request never settles, has no counterpart here.
\<close>

datatype read_result = Chunk "byte list" | ReadError thrown

record response =
  status :: nat
  body :: "read_result list option"

text \<open>
  The three React state cells of the hook, and the effects of a run in the order they
  happen: the toasts raised and the values passed to \<open>setIsProcessing\<close>. Every
  setter call is applied to the state at once, in program order, which is the state
  React arrives at when it has applied the queued updates.
\<close>

record 'd claim_state =
  isProcessing :: bool
  results :: "'d StreamResult list"
  completedNodes :: "jsstring list"
  toasts :: "toast list"
  isProcessingWrites :: "bool list"

text \<open>The values the three cells are created with (lines 23-25); nothing has happened yet.\<close>

definition initial_claim_state :: "'d claim_state" where
  "initial_claim_state =
     \<lparr>isProcessing = False, results = [], completedNodes = [], toasts = [],
      isProcessingWrites = []\<rparr>"

definition setIsProcessing :: "bool \<Rightarrow> 'd claim_state \<Rightarrow> 'd claim_state" where
  "setIsProcessing b st =
     st\<lparr>isProcessing := b, isProcessingWrites := isProcessingWrites st @ [b]\<rparr>"

definition reset :: "'d claim_state \<Rightarrow> 'd claim_state" where
  "reset st = setIsProcessing False (st\<lparr>results := [], completedNodes := []\<rparr>)"

subsection \<open>processStream\<close>

text \<open>
  The two state updates made for a parsed record (lines 59-62, repeated at 72-75):
  append it to \<open>results\<close>, and append its node to \<open>completedNodes\<close> unless it is there.
\<close>

definition appendParsed :: "'d StreamResult \<Rightarrow> 'd claim_state \<Rightarrow> 'd claim_state" where
  "appendParsed parsed st =
     st\<lparr>results := results st @ [parsed],
        completedNodes :=
          (if node parsed \<in> set (completedNodes st) then completedNodes st
           else completedNodes st @ [node parsed])\<rparr>"

text \<open>
  The body of the \<open>for\<close> loop over the complete lines (lines 54-65). \<open>parse\<close> stands
  for \<open>JSON.parse\<close> followed by the cast to \<open>StreamResult\<close>: \<open>None\<close> is a
  \<open>SyntaxError\<close>, which the \<open>catch\<close> turns into a console warning. The cast is taken
  at its word: a line that parses is a record with a \<open>node\<close> string and a \<open>data\<close>
  payload, as the interface declares; JSON values of another shape are outside the type.
\<close>

definition processLine ::
  "(jsstring \<Rightarrow> 'd StreamResult option) \<Rightarrow> jsstring \<Rightarrow> 'd claim_state \<Rightarrow> 'd claim_state" where
  "processLine parse line st =
     (let trimmedLine = trim line
      in if trimmedLine = [] then st
         else (case parse trimmedLine of
                 Some parsed \<Rightarrow> appendParsed parsed st
               | None \<Rightarrow> st))"

text \<open>The block after the loop (lines 69-79).\<close>

definition flushBuffer ::
  "(jsstring \<Rightarrow> 'd StreamResult option) \<Rightarrow> jsstring \<Rightarrow> 'd claim_state \<Rightarrow> 'd claim_state" where
  "flushBuffer parse buffer st =
     (if trim buffer \<noteq> [] then
        (case parse (trim buffer) of
           Some parsed \<Rightarrow> appendParsed parsed st
         | None \<Rightarrow> st)
      else st)"

text \<open>
  The \<open>while (true)\<close> loop (lines 42-67), one equation per outcome of
  \<open>reader.read()\<close>. It returns the buffer left at \<open>done\<close>, or the rejection of a read.
\<close>

fun readLoop ::
  "(jsstring \<Rightarrow> 'd StreamResult option) \<Rightarrow> text_decoder \<Rightarrow> jsstring \<Rightarrow> 'd claim_state \<Rightarrow>
   read_result list \<Rightarrow> (thrown + jsstring) \<times> 'd claim_state" where
  "readLoop parse decoder buffer st [] = (Inr buffer, st)"
| "readLoop parse decoder buffer st (ReadError e # rest) = (Inl e, st)"
| "readLoop parse decoder buffer st (Chunk v # rest) =
     (case decode decoder v of (text, decoder') \<Rightarrow>
        (case pop (split_nl (buffer @ text)) of (popped, lines) \<Rightarrow>
           readLoop parse decoder'
             (case popped of Some l \<Rightarrow> (if l = [] then [] else l) | None \<Rightarrow> [])
             (fold (processLine parse) lines st) rest))"

definition processStream ::
  "(jsstring \<Rightarrow> 'd StreamResult option) \<Rightarrow> response \<Rightarrow> 'd claim_state \<Rightarrow>
   (thrown + unit) \<times> 'd claim_state" where
  "processStream parse resp st =
     (case body resp of
        None \<Rightarrow> (Inl (Error (js ''No response body reader available'')), st)
      | Some reads \<Rightarrow>
          (case readLoop parse new_TextDecoder [] st reads of
             (Inl e, st') \<Rightarrow> (Inl e, st')
           | (Inr buffer, st') \<Rightarrow> (Inr (), flushBuffer parse buffer st')))"

subsection \<open>Requests and responses\<close>

text \<open>\<open>Response.ok\<close>: the status is in the range 200 to 299.\<close>

definition ok :: "response \<Rightarrow> bool" where
  "ok resp = (200 \<le> status resp \<and> status resp \<le> 299)"

text \<open>
  \<open>Response.text()\<close>: the body is read to its end and decoded as UTF-8; a rejected read
  rejects the whole call, and a response without a body gives the empty string.
\<close>

fun read_all :: "read_result list \<Rightarrow> byte list \<Rightarrow> thrown + byte list" where
  "read_all [] acc = Inr acc"
| "read_all (ReadError e # rest) acc = Inl e"
| "read_all (Chunk v # rest) acc = read_all rest (acc @ v)"

definition response_text :: "response \<Rightarrow> thrown + jsstring" where
  "response_text resp =
     (case body resp of
        None \<Rightarrow> Inr []
      | Some reads \<Rightarrow>
          (case read_all reads [] of Inl e \<Rightarrow> Inl e | Inr bs \<Rightarrow> Inr (utf8_decode bs)))"

text \<open>The promise returned by \<open>fetch\<close>: rejected (network failure) or resolved.\<close>

datatype fetch_outcome = Rejected thrown | Resolved response

text \<open>
  A request of the claim hook, by its endpoint and payload: the JSON body
  \<open>{claim_description: claimText}\<close> posted to \<open>API_ENDPOINT\<close>, or the form data with
  the file posted to \<open>API_FILE_ENDPOINT\<close>.
\<close>

datatype 'f claim_request = PostClaim jsstring | PostFile 'f

text \<open>\<open>Number.prototype.toString\<close> on an integer: its decimal digits.\<close>

function digits :: "nat \<Rightarrow> jsstring" where
  "digits n = (if n < 10 then [of_nat (48 + n)] else digits (n div 10) @ [of_nat (48 + n mod 10)])"
  by pat_completeness auto
termination
  by (relation "measure (\<lambda>n. n)") auto

declare digits.simps [simp del]

definition toString :: "int \<Rightarrow> jsstring" where
  "toString i = (if i < 0 then js ''-'' @ digits (nat (- i)) else digits (nat i))"

subsection \<open>processClaim and processFile\<close>

definition toast_success :: "jsstring \<Rightarrow> 'd claim_state \<Rightarrow> 'd claim_state" where
  "toast_success m st = st\<lparr>toasts := toasts st @ [ToastSuccess m]\<rparr>"

definition toast_error :: "jsstring \<Rightarrow> 'd claim_state \<Rightarrow> 'd claim_state" where
  "toast_error m st = st\<lparr>toasts := toasts st @ [ToastError m]\<rparr>"

text \<open>
  The \<open>try\<close> block shared by the two entry points (lines 86-106 and 123-139): it
  returns what it threw, if anything, and the state it reached.
\<close>

definition requestAndStream ::
  "(jsstring \<Rightarrow> 'd StreamResult option) \<Rightarrow> fetch_outcome \<Rightarrow> jsstring \<Rightarrow> 'd claim_state \<Rightarrow>
   (thrown + unit) \<times> 'd claim_state" where
  "requestAndStream parse fetched done_message st =
     (case fetched of
        Rejected e \<Rightarrow> (Inl e, st)
      | Resolved resp \<Rightarrow>
          if \<not> ok resp then
            (case response_text resp of
               Inl e \<Rightarrow> (Inl e, st)
             | Inr errorText \<Rightarrow>
                 (Inl (Error (js ''HTTP error! status: '' @ toString (int (status resp)) @
                              js '' - '' @ errorText)), st))
          else
            (case processStream parse resp st of
               (Inl e, st') \<Rightarrow> (Inl e, st')
             | (Inr u, st') \<Rightarrow> (Inr (), toast_success done_message st')))"

text \<open>The \<open>catch\<close> block: an error toast whose text depends on what was thrown.\<close>

definition catchToast :: "jsstring \<Rightarrow> thrown \<Rightarrow> 'd claim_state \<Rightarrow> 'd claim_state" where
  "catchToast fallback error st =
     toast_error (case error of
                    Error message \<Rightarrow> js ''Connection Error: '' @ message
                  | NonError \<Rightarrow> fallback) st"

definition processClaim ::
  "(jsstring \<Rightarrow> 'd StreamResult option) \<Rightarrow> ('f claim_request \<Rightarrow> fetch_outcome) \<Rightarrow> jsstring \<Rightarrow>
   'd claim_state \<Rightarrow> 'd claim_state" where
  "processClaim parse fetch claimText st =
     (let st1 = setIsProcessing True (reset st)
      in case requestAndStream parse (fetch (PostClaim claimText))
                (js ''Claim processed successfully!'') st1 of
           (Inr u, st2) \<Rightarrow> setIsProcessing False st2
         | (Inl error, st2) \<Rightarrow>
             setIsProcessing False
               (catchToast (js ''Failed to connect to the processing server'') error st2))"

definition processFile ::
  "(jsstring \<Rightarrow> 'd StreamResult option) \<Rightarrow> ('f claim_request \<Rightarrow> fetch_outcome) \<Rightarrow> 'f \<Rightarrow>
   'd claim_state \<Rightarrow> 'd claim_state" where
  "processFile parse fetch file st =
     (let st1 = setIsProcessing True (reset st)
      in case requestAndStream parse (fetch (PostFile file))
                (js ''File processed successfully!'') st1 of
           (Inr u, st2) \<Rightarrow> setIsProcessing False st2
         | (Inl error, st2) \<Rightarrow>
             setIsProcessing False
               (catchToast (js ''Failed to process the file'') error st2))"

section \<open>ClaimChatBox: handleSend\<close>

datatype role = User | Assistant

record message =
  msg_id :: jsstring
  role :: role
  content :: jsstring
  timestamp :: int

record chat_request =
  claim_data :: jsstring
  question :: jsstring

text \<open>
  The state cells of the component, and two records of what the handler has done so
  far, in order: the requests it has issued, and the chunks of a response body it has
  handed to \<open>decoder.decode\<close>.
\<close>

record chat_state =
  messages :: "message list"
  input :: jsstring
  isLoading :: bool
  requestsIssued :: "chat_request list"
  chunksDecoded :: "byte list list"

text \<open>
  The three fields the handler reads from the payload of the last result, each already
  rendered as the text the template literal interpolates (the empty string when absent).
\<close>

record 'd report_fields =
  claim_description :: "'d \<Rightarrow> jsstring"
  risk_assessment_report :: "'d \<Rightarrow> jsstring"
  routing_decision_report :: "'d \<Rightarrow> jsstring"

definition buildClaimText ::
  "'d report_fields \<Rightarrow> 'd StreamResult list option \<Rightarrow> jsstring" where
  "buildClaimText reports claimData =
     (case claimData of
        None \<Rightarrow> []
      | Some rs \<Rightarrow>
          if length rs > 0 then
            (let lastResult = data (last rs)
             in js ''Claim Description: '' @ claim_description reports lastResult @ [NL, NL] @
                js ''Risk Assessment Report: '' @ risk_assessment_report reports lastResult @
                [NL, NL] @
                js ''Routing Decision Report: '' @ routing_decision_report reports lastResult)
          else [])"

definition setContent :: "jsstring \<Rightarrow> jsstring \<Rightarrow> message list \<Rightarrow> message list" where
  "setContent assistantMessageId c prev =
     map (\<lambda>msg. if msg_id msg = assistantMessageId then msg\<lparr>content := c\<rparr> else msg) prev"

text \<open>The read loop of the chat stream (lines 120-135).\<close>

fun chatReadLoop ::
  "text_decoder \<Rightarrow> jsstring \<Rightarrow> jsstring \<Rightarrow> chat_state \<Rightarrow> read_result list \<Rightarrow>
   (thrown + unit) \<times> chat_state" where
  "chatReadLoop decoder accumulatedContent aid st [] = (Inr (), st)"
| "chatReadLoop decoder accumulatedContent aid st (ReadError e # rest) = (Inl e, st)"
| "chatReadLoop decoder accumulatedContent aid st (Chunk v # rest) =
     (case decode decoder v of (chunk, decoder') \<Rightarrow>
        chatReadLoop decoder' (accumulatedContent @ chunk) aid
          (st\<lparr>messages := setContent aid (accumulatedContent @ chunk) (messages st),
              chunksDecoded := chunksDecoded st @ [v]\<rparr>) rest)"

definition apology :: jsstring where
  "apology = js ''Sorry, I encountered an error processing your question. Please try again.''"

text \<open>
  The values the cells are created with (lines 25-34): the greeting, an empty input, not
  loading. \<open>mounted\<close> is the clock when the component is created.
\<close>

definition initial_chat_state :: "int \<Rightarrow> chat_state" where
  "initial_chat_state mounted =
     \<lparr>messages =
        [\<lparr>msg_id = js ''1'', role = Assistant,
          content = js (''Hello! I'm here to help you with questions about this claim. '' @
                        ''What would you like to know?''),
          timestamp = mounted\<rparr>],
      input = [], isLoading = False, requestsIssued = [], chunksDecoded = []\<rparr>"

text \<open>
  \<open>now k\<close> is the clock at the k-th time the handler reads it: \<open>Date.now()\<close> for the
  user message's id, \<open>new Date()\<close> for its timestamp, and the same two again for the
  assistant placeholder.

  The handler before its \<open>try\<close> block (lines 53-73): the user message and the empty
  assistant placeholder are appended, the input is cleared and loading is set. It yields
  the placeholder's id and the new state.
\<close>

definition beginSend :: "(nat \<Rightarrow> int) \<Rightarrow> chat_state \<Rightarrow> jsstring \<times> chat_state" where
  "beginSend now st =
     (let userMessage = \<lparr>msg_id = toString (now 0), role = User, content = input st,
                         timestamp = now 1\<rparr>;
          assistantMessageId = toString (now 2 + 1);
          assistantMessage = \<lparr>msg_id = assistantMessageId, role = Assistant, content = [],
                              timestamp = now 3\<rparr>
      in (assistantMessageId,
          st\<lparr>messages := (messages st @ [userMessage]) @ [assistantMessage],
             input := [], isLoading := True\<rparr>))"

text \<open>
  The whole handler: the guard (line 51), the part above, then \<open>try\<close>, \<open>catch\<close> and
  \<open>finally\<close> (lines 75-152).
\<close>

definition handleSend ::
  "(chat_request \<Rightarrow> fetch_outcome) \<Rightarrow> (nat \<Rightarrow> int) \<Rightarrow> 'd report_fields \<Rightarrow>
   'd StreamResult list option \<Rightarrow> chat_state \<Rightarrow> chat_state" where
  "handleSend fetch now reports claimData st =
     (if trim (input st) = [] \<or> isLoading st then st
      else
        (case beginSend now st of (assistantMessageId, st1) \<Rightarrow>
           (let currentQuestion = input st;
                request = \<lparr>claim_data = buildClaimText reports claimData,
                           question = currentQuestion\<rparr>;
                st2 = st1\<lparr>requestsIssued := requestsIssued st1 @ [request]\<rparr>;
                tried =
                  (case fetch request of
                     Rejected e \<Rightarrow> (Inl e, st2)
                   | Resolved resp \<Rightarrow>
                       if \<not> ok resp
                       then (Inl (Error (js ''Failed to get response from chat API'')), st2)
                       else (case body resp of
                               None \<Rightarrow> (Inr (), st2)
                             | Some reads \<Rightarrow>
                                 chatReadLoop new_TextDecoder [] assistantMessageId st2 reads))
            in case tried of
                 (Inr u, st3) \<Rightarrow> st3\<lparr>isLoading := False\<rparr>
               | (Inl error, st3) \<Rightarrow>
                   st3\<lparr>messages := setContent assistantMessageId apology (messages st3),
                       isLoading := False\<rparr>)))"

section \<open>Notions used to state the properties\<close>

text \<open>The text a fresh streaming decoder has produced after reading the given bytes.\<close>

definition streamText :: "byte list \<Rightarrow> jsstring" where
  "streamText bs = fst (decode new_TextDecoder bs)"

text \<open>The strings successive \<open>decode\<close> calls return for a sequence of chunks.\<close>

fun decodeChunks :: "text_decoder \<Rightarrow> byte list list \<Rightarrow> jsstring list" where
  "decodeChunks d [] = []"
| "decodeChunks d (v # vs) = (case decode d v of (chunk, d') \<Rightarrow> chunk # decodeChunks d' vs)"

text \<open>Lines joined by single newlines: the text of a JSON-lines payload.\<close>

fun join_nl :: "jsstring list \<Rightarrow> jsstring" where
  "join_nl [] = []"
| "join_nl [l] = l"
| "join_nl (l # ls) = l @ [NL] @ join_nl ls"

text \<open>The elements of a list in order of first occurrence, each once.\<close>

fun first_occurrences :: "'a list \<Rightarrow> 'a list" where
  "first_occurrences [] = []"
| "first_occurrences (x # xs) = x # filter (\<lambda>y. y \<noteq> x) (first_occurrences xs)"

text \<open>The relationship between \<open>completedNodes\<close> and \<open>results\<close>.\<close>

definition nodes_consistent :: "'d claim_state \<Rightarrow> bool" where
  "nodes_consistent st =
     (distinct (completedNodes st) \<and>
      completedNodes st = first_occurrences (map node (results st)))"

text \<open>
  What one line contributes: nothing when it is blank after trimming or does not parse,
  otherwise the parsed record. The records of a text are those of its lines, in order.
\<close>

definition lineRecord ::
  "(jsstring \<Rightarrow> 'd StreamResult option) \<Rightarrow> jsstring \<Rightarrow> 'd StreamResult option" where
  "lineRecord parse l = (if trim l = [] then None else parse (trim l))"

definition decodedRecords ::
  "(jsstring \<Rightarrow> 'd StreamResult option) \<Rightarrow> jsstring \<Rightarrow> 'd StreamResult list" where
  "decodedRecords parse text = List.map_filter (lineRecord parse) (split_nl text)"

section \<open>The streaming decoder composes over chunk boundaries\<close>

lemma utf8_run_append:
  "utf8_run s (a @ b) =
     (case utf8_run s a of (o1, s1) \<Rightarrow> (case utf8_run s1 b of (o2, s2) \<Rightarrow> (o1 @ o2, s2)))"
  by (induction a arbitrary: s) (auto split: prod.splits)

lemma serialize_append:
  "serialize seen (xs @ ys) =
     (case serialize seen xs of (k1, s1) \<Rightarrow> (case serialize s1 ys of (k2, s2) \<Rightarrow> (k1 @ k2, s2)))"
  by (cases xs; cases ys) (auto simp: serialize_def)

lemma decode_append:
  "decode d (a @ b) =
     (case decode d a of (t1, d1) \<Rightarrow> (case decode d1 b of (t2, d2) \<Rightarrow> (t1 @ t2, d2)))"
  by (auto simp: decode_def utf8_run_append serialize_append split: prod.splits)

lemma decode_Nil: "decode d [] = ([], d)"
  by (simp add: decode_def serialize_def)

section \<open>Splitting into lines\<close>

lemma split_nl_not_Nil: "split_nl s \<noteq> []"
  by (induction s) (auto split: list.splits)

lemma split_nl_no_NL: "NL \<notin> set s \<Longrightarrow> split_nl s = [s]"
  by (induction s) auto

lemma split_nl_lines_no_NL: "l \<in> set (split_nl s) \<Longrightarrow> NL \<notin> set l"
  by (induction s arbitrary: l) (auto split: if_splits list.splits)

lemma last_split_nl_no_NL: "NL \<notin> set (last (split_nl s))"
  by (rule split_nl_lines_no_NL [of _ s]) (simp add: split_nl_not_Nil)

lemma split_nl_append:
  "split_nl (a @ b) = butlast (split_nl a) @ split_nl (last (split_nl a) @ b)"
proof (induction a)
  case Nil
  show ?case by simp
next
  case (Cons c a)
  obtain l ls where sa: "split_nl a = l # ls"
    using split_nl_not_Nil [of a] by (cases "split_nl a") auto
  obtain l' ls' where sab: "split_nl (last (split_nl a) @ b) = l' # ls'"
    using split_nl_not_Nil [of "last (split_nl a) @ b"]
    by (cases "split_nl (last (split_nl a) @ b)") auto
  show ?case
  proof (cases "c = NL")
    case True
    then show ?thesis using Cons sa by simp
  next
    case False
    show ?thesis
    proof (cases ls)
      case Nil
      then show ?thesis using Cons sa sab False by (simp split: list.splits)
    next
      case (Cons x xs)
      then show ?thesis using Cons.IH sa sab False by (simp split: list.splits)
    qed
  qed
qed

lemma pop_split_nl: "pop (split_nl s) = (Some (last (split_nl s)), butlast (split_nl s))"
  by (simp add: pop_def split_nl_not_Nil)

section \<open>What processStream computes\<close>

text \<open>
  While chunks keep arriving, the buffer is the unfinished last line of the text decoded
  so far and every earlier line has been handled, in order.
\<close>

lemma readLoop_chunks:
  "NL \<notin> set buffer \<Longrightarrow>
   readLoop parse d buffer st (map Chunk cs) =
     (Inr (last (split_nl (buffer @ fst (decode d (concat cs))))),
      fold (processLine parse) (butlast (split_nl (buffer @ fst (decode d (concat cs))))) st)"
proof (induction cs arbitrary: d buffer st)
  case Nil
  then show ?case by (simp add: decode_Nil split_nl_no_NL)
next
  case (Cons c cs)
  obtain t d' where dc: "decode d c = (t, d')" by (cases "decode d c")
  obtain T d'' where dcs: "decode d' (concat cs) = (T, d'')" by (cases "decode d' (concat cs)")
  let ?L = "split_nl (buffer @ t)"
  have app: "split_nl (buffer @ t @ T) = butlast ?L @ split_nl (last ?L @ T)"
    using split_nl_append [of "buffer @ t" T] by simp
  have ih: "readLoop parse d' (last ?L) (fold (processLine parse) (butlast ?L) st) (map Chunk cs) =
     (Inr (last (split_nl (last ?L @ T))),
      fold (processLine parse) (butlast (split_nl (last ?L @ T)))
        (fold (processLine parse) (butlast ?L) st))"
    using dcs by (simp add: Cons.IH last_split_nl_no_NL)
  have dall: "fst (decode d (concat (c # cs))) = t @ T"
    using dc dcs by (simp add: decode_append)
  show ?case
    using dc ih dall app
    by (simp add: pop_split_nl split_nl_not_Nil butlast_append)
qed

lemma flushBuffer_processLine: "flushBuffer parse buffer st = processLine parse buffer st"
  by (simp add: flushBuffer_def processLine_def)

lemma processStream_chunks:
  "body resp = Some (map Chunk cs) \<Longrightarrow>
   processStream parse resp st =
     (Inr (), fold (processLine parse) (split_nl (streamText (concat cs))) st)"
proof -
  assume b: "body resp = Some (map Chunk cs)"
  let ?L = "split_nl (streamText (concat cs))"
  have "fold (processLine parse) ?L st =
        processLine parse (last ?L) (fold (processLine parse) (butlast ?L) st)"
    using append_butlast_last_id [OF split_nl_not_Nil, of "streamText (concat cs)"]
    by (metis fold_append fold_simps comp_apply)
  then show ?thesis
    using b readLoop_chunks [of "[]" parse new_TextDecoder st cs]
    by (simp add: processStream_def streamText_def flushBuffer_processLine)
qed

lemma results_fold_appendParsed: "results (fold appendParsed rs st) = results st @ rs"
  by (induction rs arbitrary: st) (simp_all add: appendParsed_def)

lemma fold_processLine:
  "fold (processLine parse) ls st = fold appendParsed (List.map_filter (lineRecord parse) ls) st"
  by (induction ls arbitrary: st)
     (simp_all add: processLine_def lineRecord_def split: option.splits)

lemma processStream_records:
  "body resp = Some (map Chunk cs) \<Longrightarrow>
   processStream parse resp st =
     (Inr (), fold appendParsed (decodedRecords parse (streamText (concat cs))) st)"
  by (simp add: processStream_chunks fold_processLine decodedRecords_def)

lemma split_nl_line_NL: "NL \<notin> set l \<Longrightarrow> split_nl (l @ NL # rest) = l # split_nl rest"
  by (induction l) (auto simp: split_nl_not_Nil split: list.splits)

lemma split_nl_join_nl:
  "ls \<noteq> [] \<Longrightarrow> list_all (\<lambda>l. NL \<notin> set l) ls \<Longrightarrow>
   split_nl (join_nl ls @ fin) = butlast ls @ split_nl (last ls @ fin)"
proof (induction ls rule: join_nl.induct)
  case 1
  then show ?case by simp
next
  case (2 l)
  then show ?case by simp
next
  case (3 l l' ls)
  then show ?case by (simp add: split_nl_line_NL)
qed

lemma map_filter_append:
  "List.map_filter f (xs @ ys) = List.map_filter f xs @ List.map_filter f ys"
  by (induction xs) (simp_all split: option.splits)

lemma map_filter_all_Some:
  "list_all2 (\<lambda>l r. P l \<and> f l = Some r) ls rs \<Longrightarrow> List.map_filter f ls = rs"
  by (induction ls rs rule: list_all2_induct) simp_all

lemma list_all2_no_NL:
  "list_all2 (\<lambda>l r. NL \<notin> set l \<and> Q l r) ls rs \<Longrightarrow> list_all (\<lambda>l. NL \<notin> set l) ls"
  by (induction ls rs rule: list_all2_induct) simp_all

lemma lineRecord_Nil: "lineRecord parse [] = None"
  by (simp add: lineRecord_def trim_def)

text \<open>A payload of newline-free lines, with or without a final newline, decodes line by line.\<close>

lemma decodedRecords_join_nl:
  "ls \<noteq> [] \<Longrightarrow> list_all (\<lambda>l. NL \<notin> set l) ls \<Longrightarrow> fin = [] \<or> fin = [NL] \<Longrightarrow>
   decodedRecords parse (join_nl ls @ fin) = List.map_filter (lineRecord parse) ls"
proof -
  assume ne: "ls \<noteq> []" and nn: "list_all (\<lambda>l. NL \<notin> set l) ls"
     and fin: "fin = [] \<or> fin = [NL]"
  have lastnn: "NL \<notin> set (last ls)"
    using ne nn by (simp add: list_all_iff)
  have bl: "ls = butlast ls @ [last ls]" using ne by simp
  have tail: "List.map_filter (lineRecord parse) (split_nl (last ls @ fin)) =
              List.map_filter (lineRecord parse) [last ls]"
    using fin lastnn
    by (auto simp: split_nl_no_NL split_nl_line_NL lineRecord_Nil split: option.splits)
  have "decodedRecords parse (join_nl ls @ fin) =
        List.map_filter (lineRecord parse) (butlast ls) @
        List.map_filter (lineRecord parse) [last ls]"
    using tail by (simp add: decodedRecords_def split_nl_join_nl [OF ne nn] map_filter_append)
  also have "\<dots> = List.map_filter (lineRecord parse) (butlast ls @ [last ls])"
    by (simp only: map_filter_append)
  finally show ?thesis using bl by simp
qed

section \<open>completedNodes follows results\<close>

lemma first_occurrences_set: "set (first_occurrences xs) = set xs"
  by (induction xs) auto

lemma first_occurrences_distinct: "distinct (first_occurrences xs)"
  by (induction xs) (auto simp: distinct_filter)

lemma first_occurrences_snoc:
  "first_occurrences (xs @ [x]) =
     (if x \<in> set xs then first_occurrences xs else first_occurrences xs @ [x])"
  by (induction xs) (auto simp: first_occurrences_set)

lemma nodes_consistent_iff:
  "nodes_consistent st \<longleftrightarrow> completedNodes st = first_occurrences (map node (results st))"
  using first_occurrences_distinct [of "map node (results st)"]
  by (auto simp: nodes_consistent_def)

lemma nodes_consistent_appendParsed:
  "nodes_consistent st \<Longrightarrow> nodes_consistent (appendParsed r st)"
  by (simp add: nodes_consistent_iff appendParsed_def first_occurrences_snoc first_occurrences_set)

lemma nodes_consistent_processLine:
  "nodes_consistent st \<Longrightarrow> nodes_consistent (processLine parse l st)"
  by (simp add: processLine_def Let_def nodes_consistent_appendParsed split: option.splits)

lemma nodes_consistent_fold:
  "nodes_consistent st \<Longrightarrow> nodes_consistent (fold (processLine parse) ls st)"
  by (induction ls arbitrary: st) (simp_all add: nodes_consistent_processLine)

lemma nodes_consistent_readLoop:
  "nodes_consistent st \<Longrightarrow> nodes_consistent (snd (readLoop parse d buffer st reads))"
  by (induction parse d buffer st reads rule: readLoop.induct)
     (simp_all add: nodes_consistent_fold split: prod.splits)

lemma nodes_consistent_processStream:
  "nodes_consistent st \<Longrightarrow> nodes_consistent (snd (processStream parse resp st))"
proof -
  assume c: "nodes_consistent st"
  show ?thesis
  proof (cases "body resp")
    case None
    then show ?thesis using c by (simp add: processStream_def)
  next
    case (Some reads)
    obtain out st' where rl: "readLoop parse new_TextDecoder [] st reads = (out, st')"
      by (cases "readLoop parse new_TextDecoder [] st reads")
    have c': "nodes_consistent st'"
      using nodes_consistent_readLoop [OF c, of parse new_TextDecoder "[]" reads] rl by simp
    show ?thesis
      using Some rl c'
      by (cases out)
         (simp_all add: processStream_def flushBuffer_processLine nodes_consistent_processLine)
  qed
qed

lemma nodes_consistent_reset: "nodes_consistent (reset st)"
  by (simp add: nodes_consistent_def reset_def setIsProcessing_def)

lemma nodes_consistent_setIsProcessing:
  "nodes_consistent st \<Longrightarrow> nodes_consistent (setIsProcessing b st)"
  by (simp add: nodes_consistent_iff setIsProcessing_def)

lemma nodes_consistent_toast:
  "nodes_consistent st \<Longrightarrow> nodes_consistent (toast_success m st)"
  "nodes_consistent st \<Longrightarrow> nodes_consistent (toast_error m st)"
  by (simp_all add: nodes_consistent_iff toast_success_def toast_error_def)

lemma nodes_consistent_requestAndStream:
  "nodes_consistent st \<Longrightarrow> nodes_consistent (snd (requestAndStream parse fetched m st))"
proof -
  assume c: "nodes_consistent st"
  show ?thesis
  proof (cases fetched)
    case (Rejected e)
    then show ?thesis using c by (simp add: requestAndStream_def)
  next
    case (Resolved resp)
    obtain out st' where ps: "processStream parse resp st = (out, st')"
      by (cases "processStream parse resp st")
    have c': "nodes_consistent st'"
      using nodes_consistent_processStream [OF c, of parse resp] ps by simp
    show ?thesis
      using Resolved ps c c'
      by (cases out) (simp_all add: requestAndStream_def nodes_consistent_toast split: sum.splits)
  qed
qed

lemma nodes_consistent_processClaim: "nodes_consistent (processClaim parse fetch claimText st)"
proof -
  let ?st1 = "setIsProcessing True (reset st)"
  obtain out st2 where r: "requestAndStream parse (fetch (PostClaim claimText))
                (js ''Claim processed successfully!'') ?st1 = (out, st2)"
    by (cases "requestAndStream parse (fetch (PostClaim claimText))
                (js ''Claim processed successfully!'') ?st1")
  have "nodes_consistent ?st1"
    by (simp add: nodes_consistent_setIsProcessing nodes_consistent_reset)
  from nodes_consistent_requestAndStream [OF this, of parse "fetch (PostClaim claimText)"
      "js ''Claim processed successfully!''"]
  have "nodes_consistent st2" using r by simp
  then show ?thesis
    using r
    by (cases out)
       (simp_all add: processClaim_def catchToast_def nodes_consistent_setIsProcessing
          nodes_consistent_toast)
qed

lemma nodes_consistent_processFile: "nodes_consistent (processFile parse fetch file st)"
proof -
  let ?st1 = "setIsProcessing True (reset st)"
  obtain out st2 where r: "requestAndStream parse (fetch (PostFile file))
                (js ''File processed successfully!'') ?st1 = (out, st2)"
    by (cases "requestAndStream parse (fetch (PostFile file))
                (js ''File processed successfully!'') ?st1")
  have "nodes_consistent ?st1"
    by (simp add: nodes_consistent_setIsProcessing nodes_consistent_reset)
  from nodes_consistent_requestAndStream [OF this, of parse "fetch (PostFile file)"
      "js ''File processed successfully!''"]
  have "nodes_consistent st2" using r by simp
  then show ?thesis
    using r
    by (cases out)
       (simp_all add: processFile_def catchToast_def nodes_consistent_setIsProcessing
          nodes_consistent_toast)
qed

lemma count_list_distinct:
  "distinct xs \<Longrightarrow> count_list xs x = (if x \<in> set xs then 1 else 0)"
  by (induction xs) auto

section \<open>What a run of the claim hook leaves untouched\<close>

lemma writes_appendParsed:
  "isProcessing (appendParsed r st) = isProcessing st \<and>
   isProcessingWrites (appendParsed r st) = isProcessingWrites st \<and>
   toasts (appendParsed r st) = toasts st"
  by (simp add: appendParsed_def)

lemma writes_processLine:
  "isProcessing (processLine parse l st) = isProcessing st \<and>
   isProcessingWrites (processLine parse l st) = isProcessingWrites st \<and>
   toasts (processLine parse l st) = toasts st"
  by (simp add: processLine_def Let_def writes_appendParsed split: option.splits)

lemma writes_fold:
  "isProcessing (fold (processLine parse) ls st) = isProcessing st \<and>
   isProcessingWrites (fold (processLine parse) ls st) = isProcessingWrites st \<and>
   toasts (fold (processLine parse) ls st) = toasts st"
  by (induction ls arbitrary: st) (simp_all add: writes_processLine)

lemma writes_readLoop:
  "isProcessing (snd (readLoop parse d buffer st reads)) = isProcessing st \<and>
   isProcessingWrites (snd (readLoop parse d buffer st reads)) = isProcessingWrites st \<and>
   toasts (snd (readLoop parse d buffer st reads)) = toasts st"
  by (induction parse d buffer st reads rule: readLoop.induct)
     (simp_all add: writes_fold split: prod.splits)

lemma writes_processStream:
  "isProcessing (snd (processStream parse resp st)) = isProcessing st \<and>
   isProcessingWrites (snd (processStream parse resp st)) = isProcessingWrites st \<and>
   toasts (snd (processStream parse resp st)) = toasts st"
proof (cases "body resp")
  case None
  then show ?thesis by (simp add: processStream_def)
next
  case (Some reads)
  obtain out st' where rl: "readLoop parse new_TextDecoder [] st reads = (out, st')"
    by (cases "readLoop parse new_TextDecoder [] st reads")
  have "isProcessing st' = isProcessing st \<and> isProcessingWrites st' = isProcessingWrites st
        \<and> toasts st' = toasts st"
    using writes_readLoop [of parse new_TextDecoder "[]" st reads] rl by simp
  then show ?thesis
    using Some rl
    by (cases out) (simp_all add: processStream_def flushBuffer_processLine writes_processLine)
qed

lemma writes_requestAndStream:
  "isProcessing (snd (requestAndStream parse fetched m st)) = isProcessing st \<and>
   isProcessingWrites (snd (requestAndStream parse fetched m st)) = isProcessingWrites st"
proof (cases fetched)
  case (Rejected e)
  then show ?thesis by (simp add: requestAndStream_def)
next
  case (Resolved resp)
  obtain out st' where ps: "processStream parse resp st = (out, st')"
    by (cases "processStream parse resp st")
  have "isProcessing st' = isProcessing st \<and> isProcessingWrites st' = isProcessingWrites st"
    using writes_processStream [of parse resp st] ps by simp
  then show ?thesis
    using Resolved ps
    by (cases out) (simp_all add: requestAndStream_def toast_success_def split: sum.splits)
qed

lemma finally_writes:
  assumes "isProcessingWrites (snd tried) = ws"
  shows "isProcessing (case tried of
           (Inr u, st2) \<Rightarrow> setIsProcessing False st2
         | (Inl error, st2) \<Rightarrow> setIsProcessing False (catchToast fb error st2)) = False
       \<and> isProcessingWrites (case tried of
           (Inr u, st2) \<Rightarrow> setIsProcessing False st2
         | (Inl error, st2) \<Rightarrow> setIsProcessing False (catchToast fb error st2)) = ws @ [False]"
  using assms
  by (cases tried; cases "fst tried")
     (simp_all add: setIsProcessing_def catchToast_def toast_error_def)

lemma requestAndStream_not_ok:
  "\<not> ok resp \<Longrightarrow>
   requestAndStream parse (Resolved resp) m st =
     (case response_text resp of
        Inl e \<Rightarrow> (Inl e, st)
      | Inr errorText \<Rightarrow>
          (Inl (Error (js ''HTTP error! status: '' @ toString (int (status resp)) @
                       js '' - '' @ errorText)), st))"
  by (simp add: requestAndStream_def)

lemma not_ok_run:
  assumes nok: "\<not> ok resp"
  shows "results (setIsProcessing False (case requestAndStream parse (Resolved resp) m
                     (setIsProcessing True (reset st)) of
           (Inr u, st2) \<Rightarrow> st2
         | (Inl error, st2) \<Rightarrow> catchToast fb error st2)) = []
       \<and> completedNodes (setIsProcessing False (case requestAndStream parse (Resolved resp) m
                     (setIsProcessing True (reset st)) of
           (Inr u, st2) \<Rightarrow> st2
         | (Inl error, st2) \<Rightarrow> catchToast fb error st2)) = []
       \<and> (\<exists>msg. toasts (setIsProcessing False (case requestAndStream parse (Resolved resp) m
                     (setIsProcessing True (reset st)) of
           (Inr u, st2) \<Rightarrow> st2
         | (Inl error, st2) \<Rightarrow> catchToast fb error st2)) = toasts st @ [ToastError msg])
       \<and> (response_text resp = Inr errorText \<longrightarrow>
           toasts (setIsProcessing False (case requestAndStream parse (Resolved resp) m
                     (setIsProcessing True (reset st)) of
           (Inr u, st2) \<Rightarrow> st2
         | (Inl error, st2) \<Rightarrow> catchToast fb error st2)) =
           toasts st @ [ToastError (js ''Connection Error: HTTP error! status: '' @
                                    toString (int (status resp)) @ js '' - '' @ errorText)])"
  using nok
  by (cases "response_text resp")
     (simp_all add: requestAndStream_not_ok setIsProcessing_def reset_def catchToast_def
        toast_error_def js_def split: thrown.splits)

lemma processClaim_alt:
  "processClaim parse fetch claimText st =
     setIsProcessing False
       (case requestAndStream parse (fetch (PostClaim claimText))
                (js ''Claim processed successfully!'') (setIsProcessing True (reset st)) of
           (Inr u, st2) \<Rightarrow> st2
         | (Inl error, st2) \<Rightarrow>
             catchToast (js ''Failed to connect to the processing server'') error st2)"
  by (simp add: processClaim_def Let_def split: prod.splits sum.splits)

lemma processFile_alt:
  "processFile parse fetch file st =
     setIsProcessing False
       (case requestAndStream parse (fetch (PostFile file))
                (js ''File processed successfully!'') (setIsProcessing True (reset st)) of
           (Inr u, st2) \<Rightarrow> st2
         | (Inl error, st2) \<Rightarrow>
             catchToast (js ''Failed to process the file'') error st2)"
  by (simp add: processFile_def Let_def split: prod.splits sum.splits)

section \<open>The chat read loop\<close>

lemma setContent_twice: "setContent aid c2 (setContent aid c1 ms) = setContent aid c2 ms"
  by (induction ms) (simp_all add: setContent_def)

lemma setContent_length: "length (setContent aid c ms) = length ms"
  by (simp add: setContent_def)

lemma setContent_last:
  "ms \<noteq> [] \<Longrightarrow> msg_id (last ms) = aid \<Longrightarrow>
   content (last (setContent aid c ms)) = c \<and> role (last (setContent aid c ms)) = role (last ms)
   \<and> msg_id (last (setContent aid c ms)) = aid"
  by (simp add: setContent_def last_map)



lemma chatReadLoop_chunks:
  "chatReadLoop d acc aid st (map Chunk cs) =
     (Inr (),
      st\<lparr>messages := (if cs = [] then messages st
                        else setContent aid (acc @ concat (decodeChunks d cs)) (messages st)),
         chunksDecoded := chunksDecoded st @ cs\<rparr>)"
proof (induction cs arbitrary: d acc st)
  case Nil
  show ?case by simp
next
  case (Cons c cs)
  obtain chunk d' where dc: "decode d c = (chunk, d')" by (cases "decode d c")
  show ?case
    using dc by (cases "cs = []") (simp_all add: Cons.IH setContent_twice)
qed

lemma chatReadLoop_error:
  "chatReadLoop d acc aid st (map Chunk cs @ ReadError e # rest) =
     (Inl e,
      st\<lparr>messages := (if cs = [] then messages st
                        else setContent aid (acc @ concat (decodeChunks d cs)) (messages st)),
         chunksDecoded := chunksDecoded st @ cs\<rparr>)"
proof (induction cs arbitrary: d acc st)
  case Nil
  show ?case by simp
next
  case (Cons c cs)
  obtain chunk d' where dc: "decode d c = (chunk, d')" by (cases "decode d c")
  show ?case
    using dc by (cases "cs = []") (simp_all add: Cons.IH setContent_twice)
qed


lemma frame_chatReadLoop:
  "isLoading (snd (chatReadLoop d acc aid st reads)) = isLoading st \<and>
   input (snd (chatReadLoop d acc aid st reads)) = input st \<and>
   requestsIssued (snd (chatReadLoop d acc aid st reads)) = requestsIssued st \<and>
   length (messages (snd (chatReadLoop d acc aid st reads))) = length (messages st)"
  by (induction d acc aid st reads rule: chatReadLoop.induct)
     (simp_all add: setContent_length split: prod.splits)

lemma beginSend_open:
  "messages (snd (beginSend now st)) \<noteq> [] \<and>
   msg_id (last (messages (snd (beginSend now st)))) = fst (beginSend now st) \<and>
   role (last (messages (snd (beginSend now st)))) = Assistant \<and>
   content (last (messages (snd (beginSend now st)))) = [] \<and>
   length (messages (snd (beginSend now st))) = length (messages st) + 2 \<and>
   requestsIssued (snd (beginSend now st)) = requestsIssued st \<and>
   chunksDecoded (snd (beginSend now st)) = chunksDecoded st"
  by (simp add: beginSend_def Let_def)

lemma handleSend_requests:
  assumes accept: "trim (input st) \<noteq> [] \<and> \<not> isLoading st"
  shows "requestsIssued (handleSend fetch now reports claimData st) =
           requestsIssued st @ [\<lparr>claim_data = buildClaimText reports claimData, question = input st\<rparr>]
       \<and> isLoading (handleSend fetch now reports claimData st) = False
       \<and> length (messages (handleSend fetch now reports claimData st)) = length (messages st) + 2"
proof -
  obtain a st1 where bs: "beginSend now st = (a, st1)" by (cases "beginSend now st")
  have ri: "requestsIssued st1 = requestsIssued st \<and> length (messages st1) = length (messages st) + 2"
    using beginSend_open [of now st] bs by simp
  let ?req = "\<lparr>claim_data = buildClaimText reports claimData, question = input st\<rparr>"
  let ?st2 = "st1\<lparr>requestsIssued := requestsIssued st1 @ [?req]\<rparr>"
  have loop: "\<And>reads. requestsIssued (snd (chatReadLoop new_TextDecoder [] a ?st2 reads)) = requestsIssued st @ [?req]
        \<and> length (messages (snd (chatReadLoop new_TextDecoder [] a ?st2 reads))) = length (messages st) + 2"
    using ri by (simp add: frame_chatReadLoop)
  show ?thesis
  proof (cases "fetch ?req")
    case (Rejected e)
    then show ?thesis using accept bs ri by (simp add: handleSend_def Let_def setContent_length)
  next
    case (Resolved resp)
    show ?thesis
    proof (cases "body resp")
      case None
      then show ?thesis using accept bs ri Resolved by (simp add: handleSend_def Let_def setContent_length)
    next
      case (Some reads)
      obtain out st3 where l: "chatReadLoop new_TextDecoder [] a ?st2 reads = (out, st3)"
        by (cases "chatReadLoop new_TextDecoder [] a ?st2 reads")
      have "requestsIssued st3 = requestsIssued st @ [?req] \<and> length (messages st3) = length (messages st) + 2"
        using loop [of reads] l by simp
      then show ?thesis
        using accept bs ri Resolved Some l
        by (cases out) (simp_all add: handleSend_def Let_def setContent_length)
    qed
  qed
qed

lemma handleSend_failed:
  assumes accept: "trim (input st) \<noteq> [] \<and> \<not> isLoading st"
      and fails:
        "fetch \<lparr>claim_data = buildClaimText reports claimData, question = input st\<rparr> =
           Rejected e
         \<or> (fetch \<lparr>claim_data = buildClaimText reports claimData, question = input st\<rparr> =
               Resolved resp \<and> \<not> ok resp)
         \<or> (fetch \<lparr>claim_data = buildClaimText reports claimData, question = input st\<rparr> =
               Resolved resp \<and> ok resp \<and>
             body resp = Some (map Chunk chunks @ ReadError e # rest))"
  shows "messages (handleSend fetch now reports claimData st) =
           setContent (fst (beginSend now st)) apology (messages (snd (beginSend now st)))
       \<and> isLoading (handleSend fetch now reports claimData st) = False"
proof -
  obtain a st1 where bs: "beginSend now st = (a, st1)" by (cases "beginSend now st")
  show ?thesis
    using accept fails bs
    by (cases "chunks = []")
       (auto simp: handleSend_def Let_def chatReadLoop_error setContent_twice)
qed

text \<open>
  On a response that is not 2xx the handler goes from the state it dispatched in straight
  to the catch block: the whole final state is fixed by the state before, the clock and
  the request, whatever the body holds.
\<close>

lemma handleSend_not_ok:
  assumes accept: "trim (input st) \<noteq> [] \<and> \<not> isLoading st"
      and resolved:
        "fetch \<lparr>claim_data = buildClaimText reports claimData, question = input st\<rparr> =
           Resolved resp"
      and nok: "\<not> ok resp"
  shows "handleSend fetch now reports claimData st =
          (snd (beginSend now st))
            \<lparr>messages := setContent (fst (beginSend now st)) apology
                           (messages (snd (beginSend now st))),
             isLoading := False,
             requestsIssued := requestsIssued st @
               [\<lparr>claim_data = buildClaimText reports claimData, question = input st\<rparr>]\<rparr>"
proof -
  obtain a st1 where bs: "beginSend now st = (a, st1)" by (cases "beginSend now st")
  have ri: "requestsIssued st1 = requestsIssued st"
    using beginSend_open [of now st] bs by simp
  show ?thesis
    using accept resolved nok bs ri
    by (simp add: handleSend_def Let_def)
qed

text \<open>On a 2xx response with a readable body every chunk goes to the decoder, in order.\<close>

lemma handleSend_ok_chunksDecoded:
  assumes accept: "trim (input st) \<noteq> [] \<and> \<not> isLoading st"
      and resolved:
        "fetch \<lparr>claim_data = buildClaimText reports claimData, question = input st\<rparr> =
           Resolved resp"
      and readable: "ok resp \<and> body resp = Some (map Chunk chunks)"
  shows "chunksDecoded (handleSend fetch now reports claimData st) = chunksDecoded st @ chunks"
proof -
  obtain a st1 where bs: "beginSend now st = (a, st1)" by (cases "beginSend now st")
  have cd: "chunksDecoded st1 = chunksDecoded st"
    using beginSend_open [of now st] bs by simp
  show ?thesis
    using accept resolved readable bs cd
    by (simp add: handleSend_def Let_def chatReadLoop_chunks)
qed

section \<open>Properties\<close>

text \<open>
  C1 (chunk-split invariance). However the bytes of a payload are cut into chunks, also
  inside a multi-byte character or next to a newline, processStream ends in the same
  state, with the same records appended in the same order, as when the whole payload
  arrives as a single chunk; that sequence is the records of the payload's decoded text.
\<close>

theorem processStream_chunk_split_invariance:
  "processStream parse \<lparr>status = s, body = Some (map Chunk chunks)\<rparr> st =
     processStream parse \<lparr>status = s, body = Some [Chunk (concat chunks)]\<rparr> st
   \<and> results (snd (processStream parse \<lparr>status = s, body = Some (map Chunk chunks)\<rparr> st)) =
     results st @ decodedRecords parse (streamText (concat chunks))"
proof -
  have one: "processStream parse \<lparr>status = s, body = Some [Chunk (concat chunks)]\<rparr> st =
      (Inr (), fold appendParsed (decodedRecords parse (streamText (concat chunks))) st)"
    using processStream_records [of "\<lparr>status = s, body = Some [Chunk (concat chunks)]\<rparr>"
        "[concat chunks]" parse st]
    by simp
  have many: "processStream parse \<lparr>status = s, body = Some (map Chunk chunks)\<rparr> st =
      (Inr (), fold appendParsed (decodedRecords parse (streamText (concat chunks))) st)"
    by (simp add: processStream_records)
  show ?thesis
    by (simp add: one many results_fold_appendParsed)
qed

text \<open>
  C2 (malformed-line isolation). Take a payload whose lines are well-formed lines, one
  malformed line somewhere among them, and again well-formed lines, where a line is
  well-formed when it is not blank and parses, and malformed when it is not blank and
  JSON.parse throws on it. Whether or not the payload ends with a newline, and however
  it is chunked, processStream returns normally, and the records it appends are exactly
  those of the well-formed lines, one each, in their original order.
\<close>

theorem malformed_line_isolation:
  assumes wf1: "list_all2 (\<lambda>l r. NL \<notin> set l \<and> lineRecord parse l = Some r) pre rs1"
      and wf2: "list_all2 (\<lambda>l r. NL \<notin> set l \<and> lineRecord parse l = Some r) post rs2"
      and bad: "NL \<notin> set bad \<and> trim bad \<noteq> [] \<and> parse (trim bad) = None"
      and fin: "fin = [] \<or> fin = [NL]"
      and payload: "streamText (concat chunks) = join_nl (pre @ [bad] @ post) @ fin"
  shows "fst (processStream parse \<lparr>status = s, body = Some (map Chunk chunks)\<rparr> st) = Inr ()
       \<and> results (snd (processStream parse \<lparr>status = s, body = Some (map Chunk chunks)\<rparr> st)) =
           results st @ rs1 @ rs2
       \<and> length (rs1 @ rs2) = length pre + length post"
proof -
  have nn: "list_all (\<lambda>l. NL \<notin> set l) (pre @ [bad] @ post)"
    using list_all2_no_NL [OF wf1] list_all2_no_NL [OF wf2] bad by simp
  have badNone: "lineRecord parse bad = None"
    using bad by (simp add: lineRecord_def)
  have recs: "decodedRecords parse (streamText (concat chunks)) = rs1 @ rs2"
    using decodedRecords_join_nl [OF _ nn fin, of parse]
          map_filter_all_Some [OF wf1] map_filter_all_Some [OF wf2] badNone
    by (simp add: payload map_filter_append)
  have len: "length (rs1 @ rs2) = length pre + length post"
    using list_all2_lengthD [OF wf1] list_all2_lengthD [OF wf2] by simp
  show ?thesis
    using recs len by (simp add: processStream_records results_fold_appendParsed)
qed

theorem malformed_line_isolation_witness:
  "results (snd (processStream
      (map_of [(js ''{\"node\":\"A\"}'', \<lparr>node = js ''A'', data = ()\<rparr>),
               (js ''{\"node\":\"B\"}'', \<lparr>node = js ''B'', data = ()\<rparr>)])
      \<lparr>status = 200,
       body = Some (map Chunk [ascii ''{\"node\":\"A\"}'' @ [0x0A] @ ascii ''{\"no'',
                               ascii ''de\":'' @ [0x0A] @ ascii ''{\"node\":\"B\"}'' @ [0x0A]])\<rparr>
      initial_claim_state)) =
   [\<lparr>node = js ''A'', data = ()\<rparr>, \<lparr>node = js ''B'', data = ()\<rparr>]"
  using malformed_line_isolation
    [where pre = "[js ''{\"node\":\"A\"}'']"
       and parse = "map_of [(js ''{\"node\":\"A\"}'', \<lparr>node = js ''A'', data = ()\<rparr>),
                            (js ''{\"node\":\"B\"}'', \<lparr>node = js ''B'', data = ()\<rparr>)]"
       and ?rs1.0 = "[\<lparr>node = js ''A'', data = ()\<rparr>]"
       and post = "[js ''{\"node\":\"B\"}'']"
       and ?rs2.0 = "[\<lparr>node = js ''B'', data = ()\<rparr>]"
       and bad = "js ''{\"node\":''"
       and fin = "[NL]"
       and chunks = "[ascii ''{\"node\":\"A\"}'' @ [0x0A] @ ascii ''{\"no'',
                      ascii ''de\":'' @ [0x0A] @ ascii ''{\"node\":\"B\"}'' @ [0x0A]]"
       and s = 200 and st = initial_claim_state]
  by (simp add: decode_def new_TextDecoder_def utf8_init_def utf8_step_def utf8_lead_def
        serialize_def utf16_def trim_def is_js_space_def js_def NL_def ascii_def
        lineRecord_def streamText_def initial_claim_state_def)

text \<open>
  C3 (trailing-unterminated-line flush). When the text after the last newline of the
  payload is a line that parses to a record, processStream ends, after the lines before
  it, by running the per-line logic on that text once, which appends the record as the
  last one. A stream that delivers no chunk at all leaves the state as it was.
\<close>

theorem trailing_line_flush:
  assumes "lineRecord parse (last (split_nl (streamText (concat chunks)))) = Some r"
  shows "processStream parse \<lparr>status = s, body = Some (map Chunk chunks)\<rparr> st =
           (Inr (), processLine parse (last (split_nl (streamText (concat chunks))))
                      (fold (processLine parse)
                         (butlast (split_nl (streamText (concat chunks)))) st))
       \<and> processStream parse \<lparr>status = s, body = Some (map Chunk chunks)\<rparr> st =
           (Inr (), appendParsed r
                      (fold (processLine parse)
                         (butlast (split_nl (streamText (concat chunks)))) st))
       \<and> results (snd (processStream parse \<lparr>status = s, body = Some (map Chunk chunks)\<rparr> st)) =
           results st @
           List.map_filter (lineRecord parse) (butlast (split_nl (streamText (concat chunks)))) @
           [r]
       \<and> processStream parse \<lparr>status = s, body = Some []\<rparr> st = (Inr (), st)"
proof -
  let ?L = "split_nl (streamText (concat chunks))"
  have split: "?L = butlast ?L @ [last ?L]"
    by (simp add: split_nl_not_Nil)
  have run: "processStream parse \<lparr>status = s, body = Some (map Chunk chunks)\<rparr> st =
      (Inr (), fold (processLine parse) (butlast ?L @ [last ?L]) st)"
    using processStream_chunks [of "\<lparr>status = s, body = Some (map Chunk chunks)\<rparr>"
        chunks parse st] split
    by simp
  have fl: "\<And>x. processLine parse (last ?L) x = appendParsed r x"
    using assms by (simp add: processLine_def lineRecord_def split: if_splits)
  have empty: "processStream parse \<lparr>status = s, body = Some []\<rparr> st = (Inr (), st)"
    by (simp add: processStream_def flushBuffer_def trim_def)
  show ?thesis
    using empty
    by (simp add: run fl fold_processLine results_fold_appendParsed appendParsed_def)
qed

theorem trailing_line_flush_witness:
  "results (snd (processStream
      (map_of [(js ''{\"node\":\"A\"}'', \<lparr>node = js ''A'', data = ()\<rparr>),
               (js ''{\"node\":\"B\"}'', \<lparr>node = js ''B'', data = ()\<rparr>)])
      \<lparr>status = 200,
       body = Some (map Chunk [ascii ''{\"node\":\"A\"}'' @ [0x0A] @ ascii ''{\"no'',
                               ascii ''de\":\"B\"}''])\<rparr>
      initial_claim_state)) =
   [\<lparr>node = js ''A'', data = ()\<rparr>, \<lparr>node = js ''B'', data = ()\<rparr>]"
  using trailing_line_flush
    [where parse = "map_of [(js ''{\"node\":\"A\"}'', \<lparr>node = js ''A'', data = ()\<rparr>),
                            (js ''{\"node\":\"B\"}'', \<lparr>node = js ''B'', data = ()\<rparr>)]"
       and r = "\<lparr>node = js ''B'', data = ()\<rparr>"
       and chunks = "[ascii ''{\"node\":\"A\"}'' @ [0x0A] @ ascii ''{\"no'',
                      ascii ''de\":\"B\"}'']"
       and s = 200 and st = initial_claim_state]
  by (simp add: decode_def new_TextDecoder_def utf8_init_def utf8_step_def utf8_lead_def
        serialize_def utf16_def trim_def is_js_space_def js_def NL_def ascii_def
        lineRecord_def streamText_def initial_claim_state_def processLine_def appendParsed_def)

text \<open>
  C4 (stage dedup with record retention). When a stream decodes to two records with the
  same node, both are appended to results, in arrival order, and completedNodes holds
  that node exactly once: it is added at its first arrival, at the end, unless it was
  there already. Started from a reset state, results has length 2 and completedNodes
  is that one node.
\<close>

theorem stage_dedup_record_retention:
  assumes same: "node r1 = node r2"
      and recs: "decodedRecords parse (streamText (concat chunks)) = [r1, r2]"
      and d: "distinct (completedNodes st)"
  shows "results (snd (processStream parse \<lparr>status = s, body = Some (map Chunk chunks)\<rparr> st)) =
           results st @ [r1, r2]
       \<and> count_list (completedNodes
             (snd (processStream parse \<lparr>status = s, body = Some (map Chunk chunks)\<rparr> st)))
           (node r1) = 1
       \<and> completedNodes
           (snd (processStream parse \<lparr>status = s, body = Some (map Chunk chunks)\<rparr> st)) =
           (if node r1 \<in> set (completedNodes st) then completedNodes st
            else completedNodes st @ [node r1])
       \<and> length (results
           (snd (processStream parse \<lparr>status = s, body = Some (map Chunk chunks)\<rparr>
                  (reset st)))) = 2
       \<and> completedNodes
           (snd (processStream parse \<lparr>status = s, body = Some (map Chunk chunks)\<rparr>
                  (reset st))) = [node r1]"
proof -
  have run: "\<And>x. processStream parse \<lparr>status = s, body = Some (map Chunk chunks)\<rparr> x =
      (Inr (), appendParsed r2 (appendParsed r1 x))"
    using recs by (simp add: processStream_records)
  show ?thesis
    using same d
    by (simp add: run appendParsed_def reset_def setIsProcessing_def count_list_distinct)
qed

theorem stage_dedup_record_retention_witness:
  "results (snd (processStream
      (map_of [(js ''{\"node\":\"A\",\"data\":1}'', \<lparr>node = js ''A'', data = 1::nat\<rparr>),
               (js ''{\"node\":\"A\",\"data\":2}'', \<lparr>node = js ''A'', data = 2\<rparr>)])
      \<lparr>status = 200,
       body = Some (map Chunk [ascii ''{\"node\":\"A\",\"data\":1}'' @ [0x0A],
                               ascii ''{\"node\":\"A\",\"data\":2}''])\<rparr>
      initial_claim_state)) =
   [\<lparr>node = js ''A'', data = 1\<rparr>, \<lparr>node = js ''A'', data = 2\<rparr>]
   \<and> completedNodes (snd (processStream
      (map_of [(js ''{\"node\":\"A\",\"data\":1}'', \<lparr>node = js ''A'', data = 1::nat\<rparr>),
               (js ''{\"node\":\"A\",\"data\":2}'', \<lparr>node = js ''A'', data = 2\<rparr>)])
      \<lparr>status = 200,
       body = Some (map Chunk [ascii ''{\"node\":\"A\",\"data\":1}'' @ [0x0A],
                               ascii ''{\"node\":\"A\",\"data\":2}''])\<rparr>
      initial_claim_state)) = [js ''A'']"
  using stage_dedup_record_retention
    [where parse = "map_of [(js ''{\"node\":\"A\",\"data\":1}'', \<lparr>node = js ''A'', data = 1::nat\<rparr>),
                            (js ''{\"node\":\"A\",\"data\":2}'', \<lparr>node = js ''A'', data = 2\<rparr>)]"
       and ?r1.0 = "\<lparr>node = js ''A'', data = 1\<rparr>"
       and ?r2.0 = "\<lparr>node = js ''A'', data = 2\<rparr>"
       and chunks = "[ascii ''{\"node\":\"A\",\"data\":1}'' @ [0x0A],
                      ascii ''{\"node\":\"A\",\"data\":2}'']"
       and s = 200 and st = initial_claim_state]
  by (simp add: decode_def new_TextDecoder_def utf8_init_def utf8_step_def utf8_lead_def
        serialize_def utf16_def trim_def is_js_space_def js_def NL_def ascii_def
        lineRecord_def decodedRecords_def streamText_def initial_claim_state_def)

text \<open>
  C9 (completedNodes is the first occurrences of the nodes of results). The relationship
  holds in the initial state and after reset, which empties both lists; appending a
  parsed record, handling a line, the end-of-stream flush, the read loop and
  processStream as a whole keep it, whatever the reads deliver; and it holds after every
  run of processClaim and processFile.
\<close>

theorem completedNodes_first_occurrences:
  "nodes_consistent (initial_claim_state :: 'd claim_state)
   \<and> nodes_consistent (reset st')
   \<and> results (reset st') = [] \<and> completedNodes (reset st') = []
   \<and> (nodes_consistent st \<longrightarrow> nodes_consistent (appendParsed r st))
   \<and> (nodes_consistent st \<longrightarrow> nodes_consistent (processLine parse l st))
   \<and> (nodes_consistent st \<longrightarrow> nodes_consistent (flushBuffer parse buffer st))
   \<and> (nodes_consistent st \<longrightarrow> nodes_consistent (snd (readLoop parse d buffer st reads)))
   \<and> (nodes_consistent st \<longrightarrow> nodes_consistent (snd (processStream parse resp st)))
   \<and> nodes_consistent (processClaim parse fetch claimText (st' :: 'd claim_state))
   \<and> nodes_consistent (processFile parse fetch file st')"
  by (simp add: nodes_consistent_reset nodes_consistent_appendParsed nodes_consistent_processLine
      flushBuffer_processLine nodes_consistent_readLoop nodes_consistent_processStream
      nodes_consistent_processClaim nodes_consistent_processFile)
     (simp add: reset_def setIsProcessing_def nodes_consistent_def initial_claim_state_def)

theorem completedNodes_first_occurrences_witness:
  "nodes_consistent
     (appendParsed \<lparr>node = js ''A'', data = 2::nat\<rparr>
        (initial_claim_state\<lparr>results := [\<lparr>node = js ''A'', data = 1\<rparr>,
                                          \<lparr>node = js ''B'', data = 1\<rparr>],
                             completedNodes := [js ''A'', js ''B'']\<rparr>))
   \<and> completedNodes
     (appendParsed \<lparr>node = js ''A'', data = 2::nat\<rparr>
        (initial_claim_state\<lparr>results := [\<lparr>node = js ''A'', data = 1\<rparr>,
                                          \<lparr>node = js ''B'', data = 1\<rparr>],
                             completedNodes := [js ''A'', js ''B'']\<rparr>)) = [js ''A'', js ''B'']"
  using completedNodes_first_occurrences
    [where st = "initial_claim_state\<lparr>results := [\<lparr>node = js ''A'', data = 1::nat\<rparr>,
                                                    \<lparr>node = js ''B'', data = 1\<rparr>],
                                       completedNodes := [js ''A'', js ''B'']\<rparr>"
       and r = "\<lparr>node = js ''A'', data = 2::nat\<rparr>"]
  by (simp add: nodes_consistent_def initial_claim_state_def appendParsed_def js_def)

text \<open>
  C5 (terminal-state guarantee). Whatever fetch does (reject, resolve with any status,
  with or without a body, with reads that fail at any point) and whatever the lines
  parse to, a run of processClaim or of processFile ends with isProcessing false, and
  the values it passes to setIsProcessing are false (the reset on entry), true (the
  request is dispatched) and then false once more, from the finally block: after the
  request has been marked active it is marked inactive exactly once, last.
\<close>

theorem isProcessing_terminal:
  "isProcessing (processClaim parse fetch claimText st) = False
   \<and> isProcessingWrites (processClaim parse fetch claimText st) =
       isProcessingWrites st @ [False, True, False]
   \<and> isProcessing (processFile parse fetch file st) = False
   \<and> isProcessingWrites (processFile parse fetch file st) =
       isProcessingWrites st @ [False, True, False]"
proof -
  let ?st1 = "setIsProcessing True (reset st)"
  have w1: "isProcessingWrites ?st1 = isProcessingWrites st @ [False, True]"
    by (simp add: setIsProcessing_def reset_def)
  have c: "\<And>fetched m. isProcessingWrites (snd (requestAndStream parse fetched m ?st1)) =
        isProcessingWrites st @ [False, True]"
    using w1 by (simp add: writes_requestAndStream)
  show ?thesis
    using finally_writes [OF c [of "fetch (PostClaim claimText)" "js ''Claim processed successfully!''"],
            of "js ''Failed to connect to the processing server''"]
          finally_writes [OF c [of "fetch (PostFile file)" "js ''File processed successfully!''"],
            of "js ''Failed to process the file''"]
    by (simp add: processClaim_def processFile_def Let_def)
qed

theorem isProcessing_terminal_witness:
  "isProcessingWrites (processClaim (\<lambda>s. None :: unit StreamResult option)
      (\<lambda>r::unit claim_request. Resolved \<lparr>status = 200, body = None\<rparr>)
      (js ''my claim'') initial_claim_state) = [False, True, False]
   \<and> toasts (processClaim (\<lambda>s. None :: unit StreamResult option)
      (\<lambda>r::unit claim_request. Resolved \<lparr>status = 200, body = None\<rparr>)
      (js ''my claim'') initial_claim_state) =
      [ToastError (js ''Connection Error: No response body reader available'')]"
  using isProcessing_terminal
    [where parse = "\<lambda>s. None :: unit StreamResult option"
       and fetch = "\<lambda>r::unit claim_request. Resolved \<lparr>status = 200, body = None\<rparr>"
       and claimText = "js ''my claim''" and st = initial_claim_state and ?file = "()"]
  by (simp add: processClaim_def requestAndStream_def processStream_def ok_def catchToast_def
        toast_error_def setIsProcessing_def reset_def initial_claim_state_def js_def)

text \<open>
  C6, amended (a response that is not 2xx). For claim-submit and file-submit the request
  fails without the body reaching processStream: results and completedNodes stay empty,
  the outcome is the same whatever the line parser would make of the body, isProcessing
  ends false and exactly one error toast is raised; when the body can be read as text,
  that toast is ``Connection Error: HTTP error! status: S - T'' with the status S and the
  text T. For chat-send the request fails without any chunk of the body being handed to
  the decoder: the final state is the dispatched state with the open assistant turn's
  content set to the fixed apology and isLoading false, the same for every body and
  every status that is not 2xx.
\<close>

theorem non_ok_response_fails:
  assumes nok: "\<not> ok resp"
      and accept: "trim (input cst) \<noteq> [] \<and> \<not> isLoading cst"
  shows "results (processClaim parse (\<lambda>r::'f claim_request. Resolved resp) claimText st) = []
       \<and> completedNodes (processClaim parse (\<lambda>r::'f claim_request. Resolved resp) claimText st) = []
       \<and> isProcessing (processClaim parse (\<lambda>r::'f claim_request. Resolved resp) claimText st) = False
       \<and> (\<exists>msg. toasts (processClaim parse (\<lambda>r::'f claim_request. Resolved resp) claimText st) =
                   toasts st @ [ToastError msg])
       \<and> (response_text resp = Inr errorText \<longrightarrow>
            toasts (processClaim parse (\<lambda>r::'f claim_request. Resolved resp) claimText st) =
              toasts st @ [ToastError (js ''Connection Error: HTTP error! status: '' @
                                       toString (int (status resp)) @ js '' - '' @ errorText)])
       \<and> results (processFile parse (\<lambda>r. Resolved resp) (file::'f) st) = []
       \<and> completedNodes (processFile parse (\<lambda>r. Resolved resp) (file::'f) st) = []
       \<and> isProcessing (processFile parse (\<lambda>r. Resolved resp) (file::'f) st) = False
       \<and> (\<exists>msg. toasts (processFile parse (\<lambda>r. Resolved resp) (file::'f) st) =
                   toasts st @ [ToastError msg])
       \<and> (response_text resp = Inr errorText \<longrightarrow>
            toasts (processFile parse (\<lambda>r. Resolved resp) (file::'f) st) =
              toasts st @ [ToastError (js ''Connection Error: HTTP error! status: '' @
                                       toString (int (status resp)) @ js '' - '' @ errorText)])
       \<and> content (last (messages (handleSend (\<lambda>r. Resolved resp) now reports claimData cst))) =
            apology
       \<and> isLoading (handleSend (\<lambda>r. Resolved resp) now reports claimData cst) = False
       \<and> processClaim parse (\<lambda>r::'f claim_request. Resolved resp) claimText st =
           processClaim parse' (\<lambda>r::'f claim_request. Resolved resp) claimText st
       \<and> processFile parse (\<lambda>r. Resolved resp) (file::'f) st =
           processFile parse' (\<lambda>r. Resolved resp) file st
       \<and> handleSend (\<lambda>r. Resolved resp) now reports claimData cst =
            (snd (beginSend now cst))
              \<lparr>messages := setContent (fst (beginSend now cst)) apology
                             (messages (snd (beginSend now cst))),
               isLoading := False,
               requestsIssued := requestsIssued cst @
                 [\<lparr>claim_data = buildClaimText reports claimData, question = input cst\<rparr>]\<rparr>
       \<and> chunksDecoded (handleSend (\<lambda>r. Resolved resp) now reports claimData cst) =
            chunksDecoded cst"
proof -
  have submit: "results (processClaim parse (\<lambda>r::'f claim_request. Resolved resp) claimText st) = []
       \<and> completedNodes (processClaim parse (\<lambda>r::'f claim_request. Resolved resp) claimText st) = []
       \<and> (\<exists>msg. toasts (processClaim parse (\<lambda>r::'f claim_request. Resolved resp) claimText st) =
                   toasts st @ [ToastError msg])
       \<and> (response_text resp = Inr errorText \<longrightarrow>
            toasts (processClaim parse (\<lambda>r::'f claim_request. Resolved resp) claimText st) =
              toasts st @ [ToastError (js ''Connection Error: HTTP error! status: '' @
                                       toString (int (status resp)) @ js '' - '' @ errorText)])"
    unfolding processClaim_alt by (rule not_ok_run [OF nok])
  have upload: "results (processFile parse (\<lambda>r. Resolved resp) (file::'f) st) = []
       \<and> completedNodes (processFile parse (\<lambda>r. Resolved resp) (file::'f) st) = []
       \<and> (\<exists>msg. toasts (processFile parse (\<lambda>r. Resolved resp) (file::'f) st) =
                   toasts st @ [ToastError msg])
       \<and> (response_text resp = Inr errorText \<longrightarrow>
            toasts (processFile parse (\<lambda>r. Resolved resp) (file::'f) st) =
              toasts st @ [ToastError (js ''Connection Error: HTTP error! status: '' @
                                       toString (int (status resp)) @ js '' - '' @ errorText)])"
    unfolding processFile_alt by (rule not_ok_run [OF nok])
  have off: "isProcessing (processClaim parse (\<lambda>r::'f claim_request. Resolved resp) claimText st) = False
       \<and> isProcessing (processFile parse (\<lambda>r. Resolved resp) (file::'f) st) = False"
    by (simp add: processClaim_alt processFile_alt setIsProcessing_def)
  have parser: "processClaim parse (\<lambda>r::'f claim_request. Resolved resp) claimText st =
           processClaim parse' (\<lambda>r::'f claim_request. Resolved resp) claimText st
       \<and> processFile parse (\<lambda>r. Resolved resp) (file::'f) st =
           processFile parse' (\<lambda>r. Resolved resp) file st"
    using nok by (simp add: processClaim_alt processFile_alt requestAndStream_not_ok)
  have chat: "handleSend (\<lambda>r. Resolved resp) now reports claimData cst =
            (snd (beginSend now cst))
              \<lparr>messages := setContent (fst (beginSend now cst)) apology
                             (messages (snd (beginSend now cst))),
               isLoading := False,
               requestsIssued := requestsIssued cst @
                 [\<lparr>claim_data = buildClaimText reports claimData, question = input cst\<rparr>]\<rparr>"
    using nok
    by (intro handleSend_not_ok [where fetch = "\<lambda>r. Resolved resp" and reports = reports
          and claimData = claimData and st = cst and resp = resp, OF accept]) simp_all
  have chat': "content (last (messages (handleSend (\<lambda>r. Resolved resp) now reports claimData cst))) =
            apology
       \<and> isLoading (handleSend (\<lambda>r. Resolved resp) now reports claimData cst) = False
       \<and> chunksDecoded (handleSend (\<lambda>r. Resolved resp) now reports claimData cst) =
            chunksDecoded cst"
    using beginSend_open [of now cst] by (simp add: chat setContent_last)
  show ?thesis
    using submit upload off parser chat chat' by simp
qed

theorem non_ok_response_fails_witness:
  "toasts (processClaim (\<lambda>s. None :: unit StreamResult option)
      (\<lambda>r::unit claim_request. Resolved \<lparr>status = 500, body = Some [Chunk (ascii ''boom'')]\<rparr>)
      (js ''my claim'') initial_claim_state) =
     [ToastError (js ''Connection Error: HTTP error! status: 500 - boom'')]
   \<and> content (last (messages (handleSend
         (\<lambda>r. Resolved \<lparr>status = 500, body = Some [Chunk (ascii ''boom'')]\<rparr>) (\<lambda>i. 1000)
         \<lparr>claim_description = (\<lambda>d::unit. []), risk_assessment_report = (\<lambda>d. []),
          routing_decision_report = (\<lambda>d. [])\<rparr> None
         ((initial_chat_state 0)\<lparr>input := js ''Why?''\<rparr>)))) = apology
   \<and> chunksDecoded (handleSend
         (\<lambda>r. Resolved \<lparr>status = 500, body = Some [Chunk (ascii ''boom'')]\<rparr>) (\<lambda>i. 1000)
         \<lparr>claim_description = (\<lambda>d::unit. []), risk_assessment_report = (\<lambda>d. []),
          routing_decision_report = (\<lambda>d. [])\<rparr> None
         ((initial_chat_state 0)\<lparr>input := js ''Why?''\<rparr>)) = []
   \<and> chunksDecoded (handleSend
         (\<lambda>r. Resolved \<lparr>status = 200, body = Some [Chunk (ascii ''boom'')]\<rparr>) (\<lambda>i. 1000)
         \<lparr>claim_description = (\<lambda>d::unit. []), risk_assessment_report = (\<lambda>d. []),
          routing_decision_report = (\<lambda>d. [])\<rparr> None
         ((initial_chat_state 0)\<lparr>input := js ''Why?''\<rparr>)) = [ascii ''boom'']"
  using non_ok_response_fails
    [where resp = "\<lparr>status = 500, body = Some [Chunk (ascii ''boom'')]\<rparr>"
       and cst = "(initial_chat_state 0)\<lparr>input := js ''Why?''\<rparr>"
       and parse = "\<lambda>s. None :: unit StreamResult option"
       and parse' = "\<lambda>s. None :: unit StreamResult option"
       and claimText = "js ''my claim''"
       and st = initial_claim_state
       and errorText = "js ''boom''"
       and now = "\<lambda>i. 1000"
       and reports = "\<lparr>claim_description = (\<lambda>d::unit. []), risk_assessment_report = (\<lambda>d. []),
          routing_decision_report = (\<lambda>d. [])\<rparr>"
       and claimData = None
       and ?file = "()"]
  by (simp add: ok_def response_text_def utf8_decode_def utf8_init_def utf8_step_def utf8_lead_def
        utf16_def ascii_def js_def trim_def is_js_space_def initial_chat_state_def
        initial_claim_state_def toString_def digits.simps handleSend_def beginSend_def Let_def
        decode_def new_TextDecoder_def serialize_def setContent_def)

text \<open>
  C6 as stated fails on two inputs. For chat-send, the handler throws a fixed message on
  a response that is not 2xx and shows the fixed apology, so two responses with
  different statuses and different body texts leave exactly the same chat state, in
  which no message carries the status or the text. For claim-submit, when the body of
  the 500 response breaks off while \<open>response.text()\<close> is reading it, the rejection of
  that read is what the catch block receives, and the toast carries its message and
  neither the status nor the text received so far.
\<close>

theorem chat_non_ok_status_not_captured:
  "handleSend
         (\<lambda>r. Resolved \<lparr>status = 500, body = Some [Chunk (ascii ''boom'')]\<rparr>) (\<lambda>i. 1000)
         \<lparr>claim_description = (\<lambda>d::unit. []), risk_assessment_report = (\<lambda>d. []),
          routing_decision_report = (\<lambda>d. [])\<rparr> None
         ((initial_chat_state 0)\<lparr>input := js ''Why?''\<rparr>) =
   handleSend
         (\<lambda>r. Resolved \<lparr>status = 404, body = Some [Chunk (ascii ''gone'')]\<rparr>) (\<lambda>i. 1000)
         \<lparr>claim_description = (\<lambda>d::unit. []), risk_assessment_report = (\<lambda>d. []),
          routing_decision_report = (\<lambda>d. [])\<rparr> None
         ((initial_chat_state 0)\<lparr>input := js ''Why?''\<rparr>)
   \<and> map content (messages
        (handleSend
         (\<lambda>r. Resolved \<lparr>status = 500, body = Some [Chunk (ascii ''boom'')]\<rparr>) (\<lambda>i. 1000)
         \<lparr>claim_description = (\<lambda>d::unit. []), risk_assessment_report = (\<lambda>d. []),
          routing_decision_report = (\<lambda>d. [])\<rparr> None
         ((initial_chat_state 0)\<lparr>input := js ''Why?''\<rparr>))) =
     [content (hd (messages (initial_chat_state 0))), js ''Why?'', apology]
   \<and> toasts (processClaim (\<lambda>s. None :: unit StreamResult option)
        (\<lambda>r::unit claim_request.
           Resolved \<lparr>status = 500,
                     body = Some [Chunk (ascii ''bo''), ReadError (Error (js ''cut''))]\<rparr>)
        (js ''my claim'') initial_claim_state) =
     [ToastError (js ''Connection Error: cut'')]"
  by (simp add: handleSend_def beginSend_def Let_def ok_def setContent_def initial_chat_state_def
        toString_def digits.simps trim_def is_js_space_def js_def apology_def
        processClaim_def requestAndStream_def response_text_def catchToast_def toast_error_def
        setIsProcessing_def reset_def initial_claim_state_def)



text \<open>
  C8 (chat failure recovery). When an accepted send fails, because fetch rejects, or the
  response is not 2xx, or a read of the body rejects after any number of chunks, the
  open assistant turn stays in the conversation as its last message and its content is
  the fixed apology, replacing whatever had been accumulated; two messages were added;
  isLoading is false, so that the next send with a non-blank input is accepted and
  issues its request.
\<close>

theorem chat_failure_overwrites_open_turn:
  assumes accept: "trim (input st) \<noteq> [] \<and> \<not> isLoading st"
      and fails:
        "fetch \<lparr>claim_data = buildClaimText reports claimData, question = input st\<rparr> =
           Rejected e
         \<or> (fetch \<lparr>claim_data = buildClaimText reports claimData, question = input st\<rparr> =
               Resolved resp \<and> \<not> ok resp)
         \<or> (fetch \<lparr>claim_data = buildClaimText reports claimData, question = input st\<rparr> =
               Resolved resp \<and> ok resp \<and>
             body resp = Some (map Chunk chunks @ ReadError e # rest))"
      and again: "trim q \<noteq> []"
  shows "content (last (messages (handleSend fetch now reports claimData st))) = apology
       \<and> role (last (messages (handleSend fetch now reports claimData st))) = Assistant
       \<and> msg_id (last (messages (handleSend fetch now reports claimData st))) = fst (beginSend now st)
       \<and> length (messages (handleSend fetch now reports claimData st)) = length (messages st) + 2
       \<and> isLoading (handleSend fetch now reports claimData st) = False
       \<and> requestsIssued (handleSend fetch' now' reports' claimData'
            ((handleSend fetch now reports claimData st)\<lparr>input := q\<rparr>)) =
          requestsIssued (handleSend fetch now reports claimData st) @
            [\<lparr>claim_data = buildClaimText reports' claimData', question = q\<rparr>]"
proof -
  let ?st' = "handleSend fetch now reports claimData st"
  have eq: "messages ?st' =
              setContent (fst (beginSend now st)) apology (messages (snd (beginSend now st)))
            \<and> isLoading ?st' = False"
    by (rule handleSend_failed [where fetch = fetch and reports = reports and claimData = claimData
          and st = st and e = e and resp = resp and chunks = chunks and rest = rest,
          OF accept fails])
  have first: "content (last (messages ?st')) = apology
       \<and> role (last (messages ?st')) = Assistant
       \<and> msg_id (last (messages ?st')) = fst (beginSend now st)
       \<and> length (messages ?st') = length (messages st) + 2
       \<and> isLoading ?st' = False"
    using beginSend_open [of now st]
    by (simp add: eq setContent_last setContent_length)
  have acc2: "trim (input (?st'\<lparr>input := q\<rparr>)) \<noteq> [] \<and> \<not> isLoading (?st'\<lparr>input := q\<rparr>)"
    using again first by simp
  have second: "requestsIssued (handleSend fetch' now' reports' claimData' (?st'\<lparr>input := q\<rparr>)) =
          requestsIssued ?st' @ [\<lparr>claim_data = buildClaimText reports' claimData', question = q\<rparr>]"
    using handleSend_requests [OF acc2, of fetch' now' reports' claimData'] by simp
  show ?thesis using first second by simp
qed

theorem chat_failure_overwrites_open_turn_witness:
  "map content (messages (handleSend
      (\<lambda>r. Resolved \<lparr>status = 200,
                       body = Some [Chunk (ascii ''Hel''), ReadError (Error (js ''network error''))]\<rparr>)
      (\<lambda>i. 1000)
      \<lparr>claim_description = (\<lambda>d::unit. []), risk_assessment_report = (\<lambda>d. []),
       routing_decision_report = (\<lambda>d. [])\<rparr> None
      ((initial_chat_state 0)\<lparr>input := js ''Why?''\<rparr>))) =
     [content (hd (messages (initial_chat_state 0))), js ''Why?'', apology]
   \<and> isLoading (handleSend
      (\<lambda>r. Resolved \<lparr>status = 200,
                       body = Some [Chunk (ascii ''Hel''), ReadError (Error (js ''network error''))]\<rparr>)
      (\<lambda>i. 1000)
      \<lparr>claim_description = (\<lambda>d::unit. []), risk_assessment_report = (\<lambda>d. []),
       routing_decision_report = (\<lambda>d. [])\<rparr> None
      ((initial_chat_state 0)\<lparr>input := js ''Why?''\<rparr>)) = False"
  using chat_failure_overwrites_open_turn
    [where st = "(initial_chat_state 0)\<lparr>input := js ''Why?''\<rparr>"
       and fetch = "\<lambda>r. Resolved \<lparr>status = 200,
                       body = Some [Chunk (ascii ''Hel''), ReadError (Error (js ''network error''))]\<rparr>"
       and now = "\<lambda>i. 1000"
       and reports = "\<lparr>claim_description = (\<lambda>d::unit. []), risk_assessment_report = (\<lambda>d. []),
                         routing_decision_report = (\<lambda>d. [])\<rparr>"
       and claimData = None
       and resp = "\<lparr>status = 200,
                       body = Some [Chunk (ascii ''Hel''), ReadError (Error (js ''network error''))]\<rparr>"
       and e = "Error (js ''network error'')"
       and chunks = "[ascii ''Hel'']" and rest = "[]"
       and q = "js ''again''"
       and fetch' = "\<lambda>r. Rejected NonError" and now' = "\<lambda>i. 2000"
       and reports' = "\<lparr>claim_description = (\<lambda>d::unit. []), risk_assessment_report = (\<lambda>d. []),
                         routing_decision_report = (\<lambda>d. [])\<rparr>"
       and claimData' = None]
  by (simp add: handleSend_def beginSend_def Let_def ok_def setContent_def initial_chat_state_def
        toString_def digits.simps trim_def is_js_space_def js_def apology_def
        decode_def new_TextDecoder_def utf8_init_def utf8_step_def utf8_lead_def
        serialize_def utf16_def ascii_def)

text \<open>
  C10 (a blocked send is a no-op). With an input that is empty or only white space, or
  while isLoading is true, handleSend returns the state it was given: no message is
  appended, no request is issued, and messages, input and isLoading are unchanged.
\<close>

theorem handleSend_noop:
  "trim (input st) = [] \<or> isLoading st \<Longrightarrow> handleSend fetch now reports claimData st = st"
  by (simp add: handleSend_def)

theorem handleSend_noop_witness:
  "handleSend (\<lambda>r. Resolved \<lparr>status = 200, body = Some [Chunk (ascii ''Hi'')]\<rparr>) (\<lambda>k. 1000)
     \<lparr>claim_description = (\<lambda>d::unit. []), risk_assessment_report = (\<lambda>d. []),
      routing_decision_report = (\<lambda>d. [])\<rparr> None
     ((initial_chat_state 0)\<lparr>input := js ''   ''\<rparr>) = (initial_chat_state 0)\<lparr>input := js ''   ''\<rparr>
   \<and> handleSend (\<lambda>r. Resolved \<lparr>status = 200, body = Some [Chunk (ascii ''Hi'')]\<rparr>) (\<lambda>k. 1000)
     \<lparr>claim_description = (\<lambda>d::unit. []), risk_assessment_report = (\<lambda>d. []),
      routing_decision_report = (\<lambda>d. [])\<rparr> None
     ((initial_chat_state 0)\<lparr>input := js ''why?'', isLoading := True\<rparr>) =
       (initial_chat_state 0)\<lparr>input := js ''why?'', isLoading := True\<rparr>"
  using handleSend_noop
          [where st = "(initial_chat_state 0)\<lparr>input := js ''   ''\<rparr>"
           and fetch = "\<lambda>r. Resolved \<lparr>status = 200, body = Some [Chunk (ascii ''Hi'')]\<rparr>"
           and now = "\<lambda>k. 1000"
           and reports = "\<lparr>claim_description = (\<lambda>d::unit. []), risk_assessment_report = (\<lambda>d. []),
                             routing_decision_report = (\<lambda>d. [])\<rparr>"
           and claimData = None]
        handleSend_noop
          [where st = "(initial_chat_state 0)\<lparr>input := js ''why?'', isLoading := True\<rparr>"
           and fetch = "\<lambda>r. Resolved \<lparr>status = 200, body = Some [Chunk (ascii ''Hi'')]\<rparr>"
           and now = "\<lambda>k. 1000"
           and reports = "\<lparr>claim_description = (\<lambda>d::unit. []), risk_assessment_report = (\<lambda>d. []),
                             routing_decision_report = (\<lambda>d. [])\<rparr>"
           and claimData = None]
  by (simp add: trim_def js_def is_js_space_def initial_chat_state_def)

end
